theory Spec2Isabelle
  imports Main "HOL-Library.Word" "HOL-Library.Multiset"
begin

section \<open>The signup page (frontend/app/signup/page.tsx)\<close>

subsection \<open>JavaScript strings\<close>

text \<open>
  A JavaScript string is a sequence of UTF-16 code units. \<open>js\<close> embeds an ASCII
  literal of the source. A value of type \<open>string | null\<close> is an option; it is
  truthy when it is a non-empty string, and \<open>a || b\<close> is \<open>b\<close> when \<open>a\<close> is falsy.
\<close>

type_synonym jsstring = "16 word list"

definition js :: "string \<Rightarrow> jsstring" where
  "js s = map (\<lambda>c. of_nat (of_char c)) s"

definition truthy :: "jsstring option \<Rightarrow> bool" where
  "truthy v = (case v of None \<Rightarrow> False | Some s \<Rightarrow> s \<noteq> [])"

definition orElse :: "jsstring option \<Rightarrow> jsstring \<Rightarrow> jsstring" where
  "orElse v d = (case v of None \<Rightarrow> d | Some s \<Rightarrow> if s = [] then d else s)"

definition orNull :: "jsstring \<Rightarrow> jsstring option" where
  "orNull s = (if s = [] then None else Some s)"

text \<open>
  \<open>String.prototype.trim\<close> removes the WhiteSpace and LineTerminator code points of
  ECMAScript from both ends: TAB, LF, VT, FF, CR, SP, NBSP, U+1680, U+2000 to U+200A,
  LS, PS, U+202F, U+205F, U+3000 and U+FEFF. All of them are single code units.
\<close>

definition isWhiteSpace :: "16 word \<Rightarrow> bool" where
  "isWhiteSpace c =
     (c = 0x0009 \<or> c = 0x000A \<or> c = 0x000B \<or> c = 0x000C \<or> c = 0x000D \<or> c = 0x0020 \<or>
      c = 0x00A0 \<or> c = 0x1680 \<or> (0x2000 \<le> c \<and> c \<le> 0x200A) \<or> c = 0x2028 \<or>
      c = 0x2029 \<or> c = 0x202F \<or> c = 0x205F \<or> c = 0x3000 \<or> c = 0xFEFF)"

definition trim :: "jsstring \<Rightarrow> jsstring" where
  "trim s = rev (dropWhile isWhiteSpace (rev (dropWhile isWhiteSpace s)))"

subsection \<open>Component state\<close>

record FormData =
  name :: jsstring
  email :: jsstring
  username :: jsstring
  employee_id :: jsstring

record SignupState =
  formData :: FormData
  loading :: bool
  submitting :: bool
  error :: "jsstring option"
  success :: "jsstring option"
  validated :: bool

text \<open>The values of the \<open>useState\<close> calls at the first render.\<close>

definition initialState :: SignupState where
  "initialState =
     \<lparr>formData = \<lparr>name = [], email = [], username = [], employee_id = []\<rparr>,
      loading = True, submitting = False, error = None, success = None,
      validated = False\<rparr>"

text \<open>
  The request and response types of \<open>@/lib/api\<close>. The two API functions
  \<open>validateMagicLink\<close> and \<open>submitSignup\<close> are parameters of the model.
\<close>

record SignupRequest =
  req_token :: jsstring
  req_name :: jsstring
  req_email :: jsstring
  req_username :: "jsstring option"
  req_employee_id :: "jsstring option"

record MagicLinkValidation =
  valid :: bool
  validation_error :: "jsstring option"
  validation_email :: "jsstring option"

record SignupResponse =
  resp_success :: bool
  resp_message :: "jsstring option"

subsection \<open>validateToken (the effect run on mount)\<close>

definition validateToken ::
  "jsstring option \<Rightarrow> (jsstring \<Rightarrow> MagicLinkValidation) \<Rightarrow> SignupState \<Rightarrow> SignupState" where
  "validateToken token validateMagicLink st =
     (if \<not> truthy token then
        st\<lparr>error := Some (js ''No token provided. Please use a valid magic link.''),
           loading := False\<rparr>
      else
        let validation = validateMagicLink (the token) in
        if \<not> valid validation then
          st\<lparr>error := Some (orElse (validation_error validation)
                                (js ''Invalid or expired magic link'')),
             loading := False\<rparr>
        else
          let st1 = (if truthy (validation_email validation)
                     then st\<lparr>formData := (formData st)\<lparr>email := the (validation_email validation)\<rparr>\<rparr>
                     else st)
          in st1\<lparr>validated := True, loading := False\<rparr>)"

subsection \<open>handleSubmit\<close>

text \<open>Lines 62 to 68: the request built from the token and the form values.\<close>

definition signupData :: "jsstring \<Rightarrow> FormData \<Rightarrow> SignupRequest" where
  "signupData token fd =
     \<lparr>req_token = token,
      req_name = trim (name fd),
      req_email = trim (email fd),
      req_username = orNull (trim (username fd)),
      req_employee_id = orNull (trim (employee_id fd))\<rparr>"

text \<open>
  The handler returns the new component state together with the list of requests it
  passed to \<open>submitSignup\<close> (empty when it returned before the call).
\<close>

definition handleSubmit ::
  "jsstring option \<Rightarrow> (SignupRequest \<Rightarrow> SignupResponse) \<Rightarrow> SignupState \<Rightarrow>
     SignupState \<times> SignupRequest list" where
  "handleSubmit token submitSignup st =
     (let st1 = st\<lparr>error := None, success := None, submitting := True\<rparr> in
      if \<not> truthy token then
        (st1\<lparr>error := Some (js ''Invalid token''), submitting := False\<rparr>, [])
      else
        let d = signupData (the token) (formData st) in
        if req_name d = [] then
          (st1\<lparr>error := Some (js ''Name is required''), submitting := False\<rparr>, [])
        else if req_email d = [] then
          (st1\<lparr>error := Some (js ''Email is required''), submitting := False\<rparr>, [])
        else
          let result = submitSignup d;
              st2 = (if resp_success result
                     then st1\<lparr>success := Some (orElse (resp_message result)
                            (js ''Thank you! Your signup has been completed.''))\<rparr>
                     else st1\<lparr>error := Some (orElse (resp_message result)
                            (js ''An error occurred. Please try again.''))\<rparr>)
          in (st2\<lparr>submitting := False\<rparr>, [d]))"

subsection \<open>handleChange and the rendered view\<close>

datatype Field = FName | FEmail | FUsername | FEmployeeId

definition handleChange :: "Field \<Rightarrow> jsstring \<Rightarrow> SignupState \<Rightarrow> SignupState" where
  "handleChange f v st =
     st\<lparr>formData :=
          (case f of
             FName \<Rightarrow> (formData st)\<lparr>name := v\<rparr>
           | FEmail \<Rightarrow> (formData st)\<lparr>email := v\<rparr>
           | FUsername \<Rightarrow> (formData st)\<lparr>username := v\<rparr>
           | FEmployeeId \<Rightarrow> (formData st)\<lparr>employee_id := v\<rparr>)\<rparr>"

datatype View = LoadingView | InvalidLinkView | SuccessView | FormView

text \<open>The chain of early returns of the component body, lines 99 to 153.\<close>

definition render :: "SignupState \<Rightarrow> View" where
  "render st =
     (if loading st then LoadingView
      else if \<not> validated st \<or> truthy (error st) then InvalidLinkView
      else if truthy (success st) then SuccessView
      else FormView)"

subsection \<open>The component as a transition system\<close>

text \<open>
  The events of the mounted component: the \<open>validateToken\<close> effect completes, an input
  changes, the form is submitted. The inputs and the form exist only in the form view
  (the last \<open>return\<close> of the component), so the two handlers can only fire there.
  The second component of a configuration collects the requests passed to
  \<open>submitSignup\<close> so far.
\<close>

datatype Event = EffectDone | Change Field jsstring | Submit

definition dispatch ::
  "jsstring option \<Rightarrow> (jsstring \<Rightarrow> MagicLinkValidation) \<Rightarrow> (SignupRequest \<Rightarrow> SignupResponse) \<Rightarrow>
     Event \<Rightarrow> SignupState \<times> SignupRequest list \<Rightarrow> SignupState \<times> SignupRequest list" where
  "dispatch token validateMagicLink submitSignup e c =
     (case e of
        EffectDone \<Rightarrow> (validateToken token validateMagicLink (fst c), snd c)
      | Change f v \<Rightarrow>
          if render (fst c) = FormView then (handleChange f v (fst c), snd c) else c
      | Submit \<Rightarrow>
          if render (fst c) = FormView
          then (fst (handleSubmit token submitSignup (fst c)),
                snd c @ snd (handleSubmit token submitSignup (fst c)))
          else c)"

fun run ::
  "jsstring option \<Rightarrow> (jsstring \<Rightarrow> MagicLinkValidation) \<Rightarrow> (SignupRequest \<Rightarrow> SignupResponse) \<Rightarrow>
     Event list \<Rightarrow> SignupState \<times> SignupRequest list \<Rightarrow> SignupState \<times> SignupRequest list" where
  "run token vml api [] c = c"
| "run token vml api (e # es) c = run token vml api es (dispatch token vml api e c)"

text \<open>The magic link is accepted: the URL has a truthy token and the API reports it valid.\<close>

definition linkAccepted :: "jsstring option \<Rightarrow> (jsstring \<Rightarrow> MagicLinkValidation) \<Rightarrow> bool" where
  "linkAccepted token validateMagicLink =
     (case token of None \<Rightarrow> False | Some t \<Rightarrow> t \<noteq> [] \<and> valid (validateMagicLink t))"

section \<open>The sign-off orchestrator\<close>

text \<open>
  The automation engine (the Python modules \<open>signoff_timecard.py\<close> and
  \<open>play/pages/*.py\<close> that the README lists) is not among the sources. The definitions
  of this section are modelled from sections 3, 4.2, 4.3 and 7 of the specification:
  the data model, the page state machine and the orchestrator with its retry loop.
\<close>

subsection \<open>Data model\<close>

text \<open>
  Modelled from the spec: the Account of section 3 (identity, portal username,
  credential reference, employee metadata); the module that loads the roster is missing.
\<close>

record Account =
  acct_name :: string
  portal_username :: string
  credential_ref :: string
  employee_meta :: string

text \<open>Modelled from the spec: the PageState of section 3; the page objects are missing.\<close>

datatype PageState = LoggedOut | Dashboard | EmployeeSelected | ConfirmationPending | Confirmed

text \<open>
  Modelled from the spec: the actions that label the transitions of the state machine
  of section 4.2; the page controllers that implement them are missing.
\<close>

datatype Action = submitCredentials | selectEmployee | requestSignOff | confirmSignOff

text \<open>
  Modelled from the spec: the errors a controller or the driver can raise inside one
  run, from the taxonomy of section 7. \<open>Unclassified\<close> stands for any unexpected
  exception; the orchestrator reports it as \<open>InternalError\<close>.
\<close>

datatype Failure =
    TransientUIFailure
  | PermanentRejection string
  | NavigationTimeout
  | UnexpectedPageState
  | Unclassified

text \<open>Modelled from the spec: the terminal status of an outcome, section 3.\<close>

datatype Status = Success | Failed | Skipped

text \<open>
  Modelled from the spec: the SignOffOutcome of section 3. The failure reason is
  populated only on \<open>Failed\<close>; the artifact is the optional screenshot path.
\<close>

record SignOffOutcome =
  account :: Account
  status :: Status
  reason :: "string option"
  timestamp :: nat
  artifact :: "string option"

subsection \<open>The page state machine\<close>

text \<open>
  Modelled from the spec: the action each page controller offers and the page it leads
  to, read off the chain
  \<open>LoggedOut --submitCredentials--> Dashboard --selectEmployee--> EmployeeSelected
  --requestSignOff--> ConfirmationPending --confirmSignOff--> Confirmed\<close> of section 4.2.
\<close>

fun actionOf :: "PageState \<Rightarrow> Action option" where
  "actionOf LoggedOut = Some submitCredentials"
| "actionOf Dashboard = Some selectEmployee"
| "actionOf EmployeeSelected = Some requestSignOff"
| "actionOf ConfirmationPending = Some confirmSignOff"
| "actionOf Confirmed = None"

text \<open>
  Modelled from the spec: the successor of a page in the chain of section 4.2;
  \<open>Confirmed\<close> is the last page.
\<close>

fun nextPage :: "PageState \<Rightarrow> PageState option" where
  "nextPage LoggedOut = Some Dashboard"
| "nextPage Dashboard = Some EmployeeSelected"
| "nextPage EmployeeSelected = Some ConfirmationPending"
| "nextPage ConfirmationPending = Some Confirmed"
| "nextPage Confirmed = None"

text \<open>Modelled from the spec: the fixed page sequence of section 4.2, as a list.\<close>

definition pageSequence :: "PageState list" where
  "pageSequence = [LoggedOut, Dashboard, EmployeeSelected, ConfirmationPending, Confirmed]"

text \<open>
  Modelled from the spec: the step relation of section 4.2. Besides the four
  transitions of the chain, any transition may instead land in the terminal
  \<open>Failed\<close> pseudo-state that carries the classified failure.
\<close>

datatype MachineState = At PageState | FailedWith Failure

text \<open>
  Modelled from the spec: the four transitions as section 4.2 lists them, and the
  failure of the action of any page that has one.
\<close>

inductive transition :: "MachineState \<Rightarrow> Action \<Rightarrow> MachineState \<Rightarrow> bool" where
  login: "transition (At LoggedOut) submitCredentials (At Dashboard)"
| select: "transition (At Dashboard) selectEmployee (At EmployeeSelected)"
| request: "transition (At EmployeeSelected) requestSignOff (At ConfirmationPending)"
| confirm: "transition (At ConfirmationPending) confirmSignOff (At Confirmed)"
| fail: "actionOf p = Some a \<Longrightarrow> transition (At p) a (FailedWith f)"

code_pred transition .

subsection \<open>The portal as the orchestrator sees it\<close>

text \<open>
  Modelled from the spec: what one attempt of a page action observes. Every action is
  paired with an observable success signal (section 4.2): the portal acknowledges the
  action and shows some page, or the controller raises a classified failure.
\<close>

datatype Signal = Acknowledged PageState | Raised Failure

text \<open>
  Modelled from the spec: the simulated portal of section 8. \<open>respond a p k\<close> is the
  signal of attempt number \<open>k\<close> (counted from 0) of the action of page \<open>p\<close> for
  account \<open>a\<close>; \<open>latency a p k\<close> is the time that attempt takes.
\<close>

record Portal =
  respond :: "Account \<Rightarrow> PageState \<Rightarrow> nat \<Rightarrow> Signal"
  latency :: "Account \<Rightarrow> PageState \<Rightarrow> nat \<Rightarrow> nat"

text \<open>
  Modelled from the spec: the fixed retry bound and the bounded backoff of
  section 4.3, and the run-level timeout and the concurrency limit of section 5.
  Time is counted in ticks from the start of the batch.
\<close>

record Config =
  maxRetries :: nat
  backoffBase :: nat
  backoffCap :: nat
  runTimeout :: "nat option"
  maxConcurrency :: nat

text \<open>
  Modelled from the spec: the bounded backoff before retry number \<open>j\<close>; it doubles
  from \<open>backoffBase\<close> and never exceeds \<open>backoffCap\<close>.
\<close>

definition backoff :: "Config \<Rightarrow> nat \<Rightarrow> nat" where
  "backoff cfg j = min (backoffBase cfg * 2 ^ (j - 1)) (backoffCap cfg)"

subsection \<open>The retry loop of one page\<close>

text \<open>
  Modelled from the spec: the failure classification of sections 4.2 and 7.
  \<open>TransientUIFailure\<close> is retryable; \<open>NavigationTimeout\<close> is treated as transient
  once (per page) and is terminal afterwards; every other failure is terminal.
\<close>

definition retryable :: "Failure \<Rightarrow> bool \<Rightarrow> bool" where
  "retryable f navRetried =
     (f = TransientUIFailure \<or> (f = NavigationTimeout \<and> \<not> navRetried))"

text \<open>
  Modelled from the spec: the reason of the Failed outcome a failure is converted to
  (section 4.3): exhausted retries give \<open>TransientUIFailure-exhausted\<close>, a rejection
  gives its own reason, an unclassified error gives \<open>InternalError\<close>.
\<close>

fun terminalReason :: "Failure \<Rightarrow> string" where
  "terminalReason TransientUIFailure = ''TransientUIFailure-exhausted''"
| "terminalReason (PermanentRejection r) = r"
| "terminalReason NavigationTimeout = ''NavigationTimeout''"
| "terminalReason UnexpectedPageState = ''UnexpectedPageState''"
| "terminalReason Unclassified = ''InternalError''"

text \<open>
  Modelled from the spec: how the action of one page ends: the portal acknowledged it
  and shows a page, or the run stops with the reason of its Failed outcome.
\<close>

datatype PageResult = Advanced PageState | Stopped string

text \<open>
  Modelled from the spec: the retry loop of section 4.3, an explicit loop with an
  attempt counter (section 9). \<open>k\<close> is the number of retries already made at the
  current page. A retryable failure is retried at the same page while \<open>k\<close> is below
  the bound; any other failure, and a retryable one at the bound, stops the run. The
  result carries the retry counter of the page.
\<close>

function retryLoop :: "Config \<Rightarrow> (nat \<Rightarrow> Signal) \<Rightarrow> nat \<Rightarrow> bool \<Rightarrow> PageResult \<times> nat" where
  "retryLoop cfg signal k navRetried =
     (case signal k of
        Acknowledged landed \<Rightarrow> (Advanced landed, k)
      | Raised f \<Rightarrow>
          if retryable f navRetried \<and> k < maxRetries cfg
          then retryLoop cfg signal (Suc k) (navRetried \<or> f = NavigationTimeout)
          else (Stopped (terminalReason f), k))"
  by pat_completeness auto
termination
  by (relation "measure (\<lambda>(cfg, signal, k, navRetried). maxRetries cfg - k)") auto

declare retryLoop.simps [simp del]

subsection \<open>Driving one account through the pages\<close>

text \<open>
  Modelled from the spec: the position of a page in the chain of section 4.2. The
  walk below only moves to pages of higher rank, which is why it terminates.
\<close>

fun rank :: "PageState \<Rightarrow> nat" where
  "rank LoggedOut = 0"
| "rank Dashboard = 1"
| "rank EmployeeSelected = 2"
| "rank ConfirmationPending = 3"
| "rank Confirmed = 4"

lemma nextPage_rank: "nextPage p = Some q \<Longrightarrow> 4 - rank q < 4 - rank p"
  by (cases p) auto

text \<open>
  Modelled from the spec: what the walk through the pages yields: the terminal status,
  the failure reason, the retry counter of every page acted on and the pages visited.
\<close>

record Drive =
  d_status :: Status
  d_reason :: "string option"
  d_counters :: "(PageState \<times> nat) list"
  d_visited :: "PageState list"

text \<open>
  Modelled from the spec: the orchestrator's walk through the state machine
  (sections 4.2 and 4.3). \<open>p\<close> is the page the orchestrator expects and \<open>actual\<close>
  the page the session really shows. Each controller first checks its precondition and
  fails with \<open>UnexpectedPageState\<close> when the two differ; then the action of the page
  runs under the retry loop. \<open>cs\<close> collects the retry counter of every page acted
  on, \<open>vs\<close> the pages whose precondition held, both oldest first.
\<close>

function drive ::
  "Config \<Rightarrow> Portal \<Rightarrow> Account \<Rightarrow> PageState \<Rightarrow> PageState \<Rightarrow> (PageState \<times> nat) list \<Rightarrow>
     PageState list \<Rightarrow> Drive" where
  "drive cfg portal a p actual cs vs =
     (if actual \<noteq> p then
        \<lparr>d_status = Failed, d_reason = Some ''UnexpectedPageState'', d_counters = cs,
         d_visited = vs\<rparr>
      else
        case nextPage p of
          None \<Rightarrow> \<lparr>d_status = Success, d_reason = None, d_counters = cs, d_visited = vs @ [p]\<rparr>
        | Some q \<Rightarrow>
            (case fst (retryLoop cfg (respond portal a p) 0 False) of
               Stopped r \<Rightarrow>
                 \<lparr>d_status = Failed, d_reason = Some r,
                  d_counters = cs @ [(p, snd (retryLoop cfg (respond portal a p) 0 False))],
                  d_visited = vs @ [p]\<rparr>
             | Advanced landed \<Rightarrow>
                 drive cfg portal a q landed
                   (cs @ [(p, snd (retryLoop cfg (respond portal a p) 0 False))]) (vs @ [p])))"
  by pat_completeness auto
termination
  by (relation "measure (\<lambda>(cfg, portal, a, p, actual, cs, vs). 4 - rank p)")
    (auto simp: nextPage_rank)

declare drive.simps [simp del]

text \<open>
  Modelled from the spec: the time one page takes, the latency of each attempt plus the
  backoff before each retry, and the time of a whole run.
\<close>

definition pageTime :: "Config \<Rightarrow> (nat \<Rightarrow> nat) \<Rightarrow> nat \<Rightarrow> nat" where
  "pageTime cfg lat k =
     sum_list (map lat [0..<Suc k]) + sum_list (map (backoff cfg) [1..<Suc k])"

text \<open>Modelled from the spec: the time of a run, the sum over the pages it acted on.\<close>

definition runTime :: "Config \<Rightarrow> Portal \<Rightarrow> Account \<Rightarrow> (PageState \<times> nat) list \<Rightarrow> nat" where
  "runTime cfg portal a cs =
     sum_list (map (\<lambda>(p, k). pageTime cfg (latency portal a p) k) cs)"

text \<open>
  Modelled from the spec: the result of one orchestrator run, the outcome together with
  what a test observes of the run: the retry counters, the pages visited, the time
  taken and whether the session is still open.
\<close>

record RunResult =
  outcome :: SignOffOutcome
  counters :: "(PageState \<times> nat) list"
  visited :: "PageState list"
  elapsed :: nat
  sessionOpen :: bool

text \<open>
  Modelled from the spec: the Sign-off Orchestrator of section 4.3. It acquires a
  fresh session, which shows the \<open>LoggedOut\<close> page, drives the account through the
  pages, converts whatever happened into exactly one outcome and releases the session
  before returning.
\<close>

definition orchestrate :: "Config \<Rightarrow> Portal \<Rightarrow> Account \<Rightarrow> nat \<Rightarrow> RunResult" where
  "orchestrate cfg portal a start =
     (let d = drive cfg portal a LoggedOut LoggedOut [] [];
          t = runTime cfg portal a (d_counters d)
      in \<lparr>outcome = \<lparr>account = a, status = d_status d, reason = d_reason d,
                      timestamp = start + t, artifact = None\<rparr>,
          counters = d_counters d, visited = d_visited d, elapsed = t,
          sessionOpen = False\<rparr>)"


subsection \<open>The batch runner\<close>




text \<open>
  Modelled from the spec: the bounded concurrency of section 5. Each worker owns one
  session at a time; a worker is the tick at which it is free again. \<open>earliest\<close> is
  the position of the worker that is free first.
\<close>

fun earliest :: "nat list \<Rightarrow> nat" where
  "earliest [] = 0"
| "earliest [w] = 0"
| "earliest (w # ws) = (let i = earliest ws in if w \<le> ws ! i then 0 else Suc i)"








subsection \<open>The scenarios of section 8\<close>

text \<open>
  Modelled from the spec: the accounts of the scenario of section 8. Account A always
  succeeds, B is rejected with "already completed" when the employee is selected, C
  meets two transient failures at login and then succeeds.
\<close>

definition acct :: "string \<Rightarrow> Account" where
  "acct n = \<lparr>acct_name = n, portal_username = n, credential_ref = ''vault/'' @ n,
             employee_meta = []\<rparr>"

text \<open>Modelled from the spec: a portal reply that always acknowledges with the next page.\<close>

definition okPortal :: "PageState \<Rightarrow> Signal" where
  "okPortal p = (case nextPage p of Some q \<Rightarrow> Acknowledged q | None \<Rightarrow> Acknowledged p)"

text \<open>Modelled from the spec: the simulated portal of the scenario with accounts A, B and C.\<close>

definition demoPortal :: Portal where
  "demoPortal =
     \<lparr>respond = (\<lambda>a p k.
         if acct_name a = ''B'' \<and> p = Dashboard
         then Raised (PermanentRejection ''already completed'')
         else if acct_name a = ''C'' \<and> p = LoggedOut \<and> k < 2 then Raised TransientUIFailure
         else okPortal p),
       latency = (\<lambda>a p k. 1)\<rparr>"




text \<open>
  Modelled from the spec: retry bound 3, as in the scenario of section 8, two
  concurrent runs and no run-level timeout.
\<close>

definition demoConfig :: Config where
  "demoConfig = \<lparr>maxRetries = 3, backoffBase = 1, backoffCap = 8, runTimeout = None,
                  maxConcurrency = 2\<rparr>"


section \<open>Properties of the signup page\<close>

lemma js_nonempty: "s \<noteq> [] \<Longrightarrow> js s \<noteq> []"
  by (simp add: js_def)

lemma orElse_nonempty: "d \<noteq> [] \<Longrightarrow> orElse v d \<noteq> []"
  by (simp add: orElse_def split: option.splits)

lemma orNull_iff: "orNull s = None \<longleftrightarrow> s = []"
  by (simp add: orNull_def)

lemma render_not_validated: "\<not> validated st \<Longrightarrow> render st \<noteq> FormView"
  by (simp add: render_def)

lemma render_loading: "loading st \<Longrightarrow> render st = LoadingView"
  by (simp add: render_def)

lemma validateToken_bad:
  assumes "\<not> linkAccepted token vml"
  shows "validated (validateToken token vml st) = validated st"
    and "truthy (error (validateToken token vml st))"
    and "\<not> loading (validateToken token vml st)"
  using assms
  by (auto simp: validateToken_def linkAccepted_def Let_def truthy_def js_nonempty orElse_nonempty
      split: option.splits)

lemma dispatch_bad:
  assumes bad: "\<not> linkAccepted token vml"
    and inv: "\<not> validated (fst c)" "snd c = []"
  shows "\<not> validated (fst (dispatch token vml api e c))"
    and "snd (dispatch token vml api e c) = []"
  using inv validateToken_bad(1)[OF bad]
  by (auto simp: dispatch_def render_not_validated split: Event.splits)

lemma dispatch_bad_seen:
  assumes bad: "\<not> linkAccepted token vml"
    and inv: "\<not> validated (fst c)"
    and seen: "e = EffectDone \<or> (truthy (error (fst c)) \<and> \<not> loading (fst c))"
  shows "truthy (error (fst (dispatch token vml api e c))) \<and>
         \<not> loading (fst (dispatch token vml api e c))"
  using inv seen validateToken_bad(2,3)[OF bad]
  by (auto simp: dispatch_def render_not_validated split: Event.splits)

lemma dispatch_loading:
  assumes "loading (fst c)" "e \<noteq> EffectDone"
  shows "dispatch token vml api e c = c"
  using assms by (auto simp: dispatch_def render_loading split: Event.splits)

lemma run_loading:
  "loading (fst c) \<Longrightarrow> EffectDone \<notin> set evs \<Longrightarrow> run token vml api evs c = c"
  by (induction evs arbitrary: c) (auto simp: dispatch_loading)

lemma run_bad:
  assumes bad: "\<not> linkAccepted token vml"
  shows "\<not> validated (fst c) \<Longrightarrow> snd c = [] \<Longrightarrow>
         \<not> validated (fst (run token vml api evs c)) \<and> snd (run token vml api evs c) = []"
proof (induction evs arbitrary: c)
  case Nil
  then show ?case by simp
next
  case (Cons e es)
  show ?case
    using Cons.IH[of "dispatch token vml api e c"] dispatch_bad[OF bad Cons.prems]
    by simp
qed

lemma run_bad_seen:
  assumes bad: "\<not> linkAccepted token vml"
  shows "\<not> validated (fst c) \<Longrightarrow> snd c = [] \<Longrightarrow>
         EffectDone \<in> set evs \<or> (truthy (error (fst c)) \<and> \<not> loading (fst c)) \<Longrightarrow>
         truthy (error (fst (run token vml api evs c))) \<and>
         \<not> loading (fst (run token vml api evs c))"
proof (induction evs arbitrary: c)
  case Nil
  then show ?case by simp
next
  case (Cons e es)
  let ?c = "dispatch token vml api e c"
  have nv: "\<not> validated (fst ?c)" "snd ?c = []"
    using dispatch_bad[OF bad Cons.prems(1,2)] by simp_all
  show ?case
  proof (cases "e = EffectDone \<or> (truthy (error (fst c)) \<and> \<not> loading (fst c))")
    case True
    then have "truthy (error (fst ?c)) \<and> \<not> loading (fst ?c)"
      using dispatch_bad_seen[OF bad Cons.prems(1)] by blast
    then show ?thesis using Cons.IH[OF nv] by simp
  next
    case False
    then have "EffectDone \<in> set es" using Cons.prems(3) by auto
    then show ?thesis using Cons.IH[OF nv] by simp
  qed
qed

text \<open>
  C8. In \<open>handleSubmit\<close>, \<open>submitSignup\<close> is called only when the URL token is
  not null (and not empty) and the trimmed name and the trimmed email are both
  non-empty. For every input that violates one of these conditions the handler calls
  nothing, leaves an error message set and resets \<open>submitting\<close>.
\<close>

theorem handleSubmit_guard:
  "(snd (handleSubmit token api st) \<noteq> [] \<longrightarrow>
      token \<noteq> None \<and> truthy token \<and>
      trim (name (formData st)) \<noteq> [] \<and> trim (email (formData st)) \<noteq> []) \<and>
   (token = None \<or> token = Some [] \<or>
    trim (name (formData st)) = [] \<or> trim (email (formData st)) = [] \<longrightarrow>
      snd (handleSubmit token api st) = [] \<and>
      truthy (error (fst (handleSubmit token api st))) \<and>
      success (fst (handleSubmit token api st)) = None \<and>
      \<not> submitting (fst (handleSubmit token api st)))"
  by (auto simp: handleSubmit_def Let_def signupData_def truthy_def js_nonempty split: option.splits)

theorem handleSubmit_guard_witness:
  "snd (handleSubmit None (\<lambda>r. \<lparr>resp_success = True, resp_message = None\<rparr>) initialState) = [] \<and>
   truthy (error (fst (handleSubmit None (\<lambda>r. \<lparr>resp_success = True, resp_message = None\<rparr>)
      initialState))) \<and>
   \<not> submitting (fst (handleSubmit None (\<lambda>r. \<lparr>resp_success = True, resp_message = None\<rparr>)
      initialState)) \<and>
   snd (handleSubmit (Some (js ''tok'')) (\<lambda>r. \<lparr>resp_success = True, resp_message = None\<rparr>)
      (initialState\<lparr>formData := \<lparr>name = js '' Ann '', email = js ''a@b.c'', username = [],
         employee_id = []\<rparr>\<rparr>)) \<noteq> [] \<and>
   trim (name (formData (initialState\<lparr>formData := \<lparr>name = js '' Ann '', email = js ''a@b.c'',
      username = [], employee_id = []\<rparr>\<rparr>))) \<noteq> []"
proof -
  let ?api = "\<lambda>r::SignupRequest. \<lparr>resp_success = True, resp_message = None\<rparr>"
  let ?st = "initialState\<lparr>formData := \<lparr>name = js '' Ann '', email = js ''a@b.c'',
      username = [], employee_id = []\<rparr>\<rparr>"
  have called: "snd (handleSubmit (Some (js ''tok'')) ?api ?st) \<noteq> []"
    by (simp add: handleSubmit_def signupData_def truthy_def trim_def js_def isWhiteSpace_def
        initialState_def Let_def)
  show ?thesis
    using handleSubmit_guard [of None ?api initialState]
      handleSubmit_guard [of "Some (js ''tok'')" ?api ?st] called
    by simp
qed

text \<open>
  C9. The request built by \<open>handleSubmit\<close> (lines 62 to 68) carries the token, the
  trimmed name and the trimmed email; its username and employee id are null exactly
  when the trimmed form value is empty and the trimmed value otherwise. A request
  passed to \<open>submitSignup\<close> is this request.
\<close>

theorem signupData_fields:
  "req_token (signupData t (formData st)) = t \<and>
   req_name (signupData t (formData st)) = trim (name (formData st)) \<and>
   req_email (signupData t (formData st)) = trim (email (formData st)) \<and>
   req_username (signupData t (formData st)) =
     (if trim (username (formData st)) = [] then None
      else Some (trim (username (formData st)))) \<and>
   req_employee_id (signupData t (formData st)) =
     (if trim (employee_id (formData st)) = [] then None
      else Some (trim (employee_id (formData st)))) \<and>
   (snd (handleSubmit (Some t) api st) = [] \<or>
    snd (handleSubmit (Some t) api st) = [signupData t (formData st)])"
  by (simp add: signupData_def orNull_def handleSubmit_def Let_def)

text \<open>
  C10. The form is rendered only after the magic link has been validated. While the
  effect has not completed, the loading view is shown and nothing is submitted. When
  the URL has no token or \<open>validateMagicLink\<close> reports it invalid, then after any
  sequence of events \<open>validated\<close> is still false, the form view is not rendered and
  nothing has been submitted; once the effect has completed, an error is set and the
  view is the "Invalid Link" one.
\<close>

theorem form_only_after_validation:
  "(EffectDone \<notin> set evs \<longrightarrow>
      render (fst (run token vml api evs (initialState, []))) = LoadingView \<and>
      snd (run token vml api evs (initialState, [])) = []) \<and>
   (\<not> linkAccepted token vml \<longrightarrow>
      \<not> validated (fst (run token vml api evs (initialState, []))) \<and>
      render (fst (run token vml api evs (initialState, []))) \<noteq> FormView \<and>
      snd (run token vml api evs (initialState, [])) = [] \<and>
      (EffectDone \<in> set evs \<longrightarrow>
         truthy (error (fst (run token vml api evs (initialState, [])))) \<and>
         render (fst (run token vml api evs (initialState, []))) = InvalidLinkView))"
proof (intro conjI impI)
  assume "EffectDone \<notin> set evs"
  then have "run token vml api evs (initialState, []) = (initialState, [])"
    by (simp add: run_loading initialState_def)
  then show "render (fst (run token vml api evs (initialState, []))) = LoadingView"
    and "snd (run token vml api evs (initialState, [])) = []"
    by (simp_all add: render_def initialState_def)
next
  assume bad: "\<not> linkAccepted token vml"
  have nv: "\<not> validated (fst (initialState, ([]::SignupRequest list)))"
    by (simp add: initialState_def)
  have r: "\<not> validated (fst (run token vml api evs (initialState, []))) \<and>
           snd (run token vml api evs (initialState, [])) = []"
    using run_bad[OF bad nv] by simp
  then show "\<not> validated (fst (run token vml api evs (initialState, [])))"
    and "snd (run token vml api evs (initialState, [])) = []"
    by simp_all
  from r show "render (fst (run token vml api evs (initialState, []))) \<noteq> FormView"
    by (simp add: render_not_validated)
  assume seen: "EffectDone \<in> set evs"
  have s: "truthy (error (fst (run token vml api evs (initialState, [])))) \<and>
        \<not> loading (fst (run token vml api evs (initialState, [])))"
    using run_bad_seen[OF bad nv _ disjI1[OF seen]] by simp
  then show "truthy (error (fst (run token vml api evs (initialState, []))))" by simp
  from s r show "render (fst (run token vml api evs (initialState, []))) = InvalidLinkView"
    by (simp add: render_def)
qed

theorem form_only_after_validation_witness:
  "render (fst (run None (\<lambda>t. \<lparr>valid = True, validation_error = None, validation_email = None\<rparr>)
      (\<lambda>r. \<lparr>resp_success = True, resp_message = None\<rparr>)
      [Submit] (initialState, []))) = LoadingView \<and>
   render (fst (run None (\<lambda>t. \<lparr>valid = True, validation_error = None, validation_email = None\<rparr>)
      (\<lambda>r. \<lparr>resp_success = True, resp_message = None\<rparr>)
      [EffectDone, Change FName (js ''Ann''), Submit] (initialState, []))) = InvalidLinkView \<and>
   snd (run None (\<lambda>t. \<lparr>valid = True, validation_error = None, validation_email = None\<rparr>)
      (\<lambda>r. \<lparr>resp_success = True, resp_message = None\<rparr>)
      [EffectDone, Change FName (js ''Ann''), Submit] (initialState, [])) = []"
proof -
  let ?vml = "\<lambda>t::jsstring. \<lparr>valid = True, validation_error = None, validation_email = None\<rparr>"
  let ?api = "\<lambda>r::SignupRequest. \<lparr>resp_success = True, resp_message = None\<rparr>"
  have bad: "\<not> linkAccepted None ?vml"
    by (simp add: linkAccepted_def)
  show ?thesis
    using form_only_after_validation [of "[Submit]" None ?vml ?api]
      form_only_after_validation
        [of "[EffectDone, Change FName (js ''Ann''), Submit]" None ?vml ?api] bad
    by simp
qed

section \<open>Properties of the orchestrator\<close>

subsection \<open>The retry loop\<close>

lemma retryLoop_spec:
  "retryLoop cfg signal k nav = (res, n) \<Longrightarrow>
     k \<le> n \<and> (k \<le> maxRetries cfg \<longrightarrow> n \<le> maxRetries cfg) \<and>
     (\<forall>j. k \<le> j \<and> j < n \<longrightarrow>
        signal j = Raised TransientUIFailure \<or> signal j = Raised NavigationTimeout) \<and>
     (case res of
        Advanced q \<Rightarrow> signal n = Acknowledged q
      | Stopped r \<Rightarrow> (\<exists>f. signal n = Raised f \<and> r = terminalReason f \<and>
                        (f = TransientUIFailure \<longrightarrow> maxRetries cfg \<le> n)))"
proof (induction cfg signal k nav rule: retryLoop.induct)
  case (1 cfg signal k nav)
  show ?case
  proof (cases "signal k")
    case (Acknowledged q)
    with "1.prems" show ?thesis by (auto simp: retryLoop.simps[of cfg signal k nav])
  next
    case (Raised f)
    show ?thesis
    proof (cases "retryable f nav \<and> k < maxRetries cfg")
      case True
      then have eq: "retryLoop cfg signal (Suc k) (nav \<or> f = NavigationTimeout) = (res, n)"
        using "1.prems" Raised by (simp add: retryLoop.simps[of cfg signal k nav])
      have ih: "Suc k \<le> n \<and> (Suc k \<le> maxRetries cfg \<longrightarrow> n \<le> maxRetries cfg) \<and>
         (\<forall>j. Suc k \<le> j \<and> j < n \<longrightarrow>
            signal j = Raised TransientUIFailure \<or> signal j = Raised NavigationTimeout) \<and>
         (case res of
            Advanced q \<Rightarrow> signal n = Acknowledged q
          | Stopped r \<Rightarrow> (\<exists>f. signal n = Raised f \<and> r = terminalReason f \<and>
                        (f = TransientUIFailure \<longrightarrow> maxRetries cfg \<le> n)))"
        using "1.IH"[OF Raised True eq] .
      have here: "signal k = Raised TransientUIFailure \<or> signal k = Raised NavigationTimeout"
        using True Raised by (auto simp: retryable_def)
      have "\<forall>j. k \<le> j \<and> j < n \<longrightarrow>
            signal j = Raised TransientUIFailure \<or> signal j = Raised NavigationTimeout"
      proof (intro allI impI)
        fix j assume "k \<le> j \<and> j < n"
        then consider "j = k" | "Suc k \<le> j \<and> j < n" by linarith
        then show "signal j = Raised TransientUIFailure \<or> signal j = Raised NavigationTimeout"
          using here ih by cases auto
      qed
      with ih True show ?thesis by auto
    next
      case False
      then have "res = Stopped (terminalReason f)" "n = k"
        using "1.prems" Raised by (auto simp: retryLoop.simps[of cfg signal k nav])
      with False Raised show ?thesis by (auto simp: retryable_def)
    qed
  qed
qed



lemma retryLoop_advanced:
  assumes "retryLoop cfg (respond portal a p) 0 False = (Advanced l, n)"
  shows "respond portal a p n = Acknowledged l" and "n \<le> maxRetries cfg"
  using retryLoop_spec[OF assms] by auto


subsection \<open>One step of the walk\<close>

lemma drive_mismatch:
  "actual \<noteq> p \<Longrightarrow> drive cfg portal a p actual cs vs =
     \<lparr>d_status = Failed, d_reason = Some ''UnexpectedPageState'', d_counters = cs,
      d_visited = vs\<rparr>"
  by (simp add: drive.simps[of cfg portal a p actual cs vs])

lemma drive_done:
  "nextPage p = None \<Longrightarrow> drive cfg portal a p p cs vs =
     \<lparr>d_status = Success, d_reason = None, d_counters = cs, d_visited = vs @ [p]\<rparr>"
  by (simp add: drive.simps[of cfg portal a p p cs vs])

lemma drive_stop:
  "nextPage p = Some q \<Longrightarrow> retryLoop cfg (respond portal a p) 0 False = (Stopped r, n) \<Longrightarrow>
   drive cfg portal a p p cs vs =
     \<lparr>d_status = Failed, d_reason = Some r, d_counters = cs @ [(p, n)], d_visited = vs @ [p]\<rparr>"
  by (simp add: drive.simps[of cfg portal a p p cs vs])

lemma drive_advance:
  "nextPage p = Some q \<Longrightarrow> retryLoop cfg (respond portal a p) 0 False = (Advanced l, n) \<Longrightarrow>
   drive cfg portal a p p cs vs = drive cfg portal a q l (cs @ [(p, n)]) (vs @ [p])"
  by (simp add: drive.simps[of cfg portal a p p cs vs])

text \<open>A proof principle for drive: the four ways a call can go.\<close>

lemma drive_cases:
  assumes mismatch: "\<And>p actual cs vs. actual \<noteq> p \<Longrightarrow>
      P p actual cs vs \<lparr>d_status = Failed, d_reason = Some ''UnexpectedPageState'',
        d_counters = cs, d_visited = vs\<rparr>"
    and final: "\<And>p cs vs. nextPage p = None \<Longrightarrow>
      P p p cs vs \<lparr>d_status = Success, d_reason = None, d_counters = cs, d_visited = vs @ [p]\<rparr>"
    and stop: "\<And>p q r n cs vs. nextPage p = Some q \<Longrightarrow>
      retryLoop cfg (respond portal a p) 0 False = (Stopped r, n) \<Longrightarrow>
      P p p cs vs \<lparr>d_status = Failed, d_reason = Some r, d_counters = cs @ [(p, n)],
        d_visited = vs @ [p]\<rparr>"
    and advance: "\<And>p q l n cs vs. nextPage p = Some q \<Longrightarrow>
      retryLoop cfg (respond portal a p) 0 False = (Advanced l, n) \<Longrightarrow>
      P q l (cs @ [(p, n)]) (vs @ [p]) (drive cfg portal a q l (cs @ [(p, n)]) (vs @ [p])) \<Longrightarrow>
      P p p cs vs (drive cfg portal a q l (cs @ [(p, n)]) (vs @ [p]))"
  shows "P p actual cs vs (drive cfg portal a p actual cs vs)"
proof (induction "4 - rank p" arbitrary: p actual cs vs rule: less_induct)
  case less
  show ?case
  proof (cases "actual = p")
    case False
    then show ?thesis using mismatch[of actual p cs vs] by (simp add: drive_mismatch)
  next
    case True
    show ?thesis
    proof (cases "nextPage p")
      case None
      then show ?thesis using final[of p cs vs] True by (simp add: drive_done)
    next
      case (Some q)
      obtain res n where rl: "retryLoop cfg (respond portal a p) 0 False = (res, n)"
        by (cases "retryLoop cfg (respond portal a p) 0 False") auto
      show ?thesis
      proof (cases res)
        case (Stopped r)
        then show ?thesis using stop[OF Some, of r n cs vs] rl True
          by (simp add: drive_stop[OF Some])
      next
        case (Advanced l)
        have "P q l (cs @ [(p, n)]) (vs @ [p]) (drive cfg portal a q l (cs @ [(p, n)]) (vs @ [p]))"
          using less.hyps[of q] nextPage_rank[OF Some] by simp
        then show ?thesis using advance[OF Some, of l n cs vs] rl Advanced True
          by (simp add: drive_advance[OF Some])
      qed
    qed
  qed
qed

subsection \<open>Invariants of the walk\<close>

lemma pages_from:
  "nextPage p = Some q \<Longrightarrow> drop (rank p) pageSequence = p # drop (rank q) pageSequence"
  by (cases p) (auto simp: pageSequence_def)

lemma pages_from_last: "nextPage p = None \<Longrightarrow> drop (rank p) pageSequence = [p]"
  by (cases p) (auto simp: pageSequence_def)

lemma drive_visited:
  "\<exists>m. d_visited (drive cfg portal a p actual cs vs) = vs @ take m (drop (rank p) pageSequence) \<and>
       (actual = p \<longrightarrow> 0 < m)"
proof (rule drive_cases[where P = "\<lambda>p actual cs vs d.
    \<exists>m. d_visited d = vs @ take m (drop (rank p) pageSequence) \<and> (actual = p \<longrightarrow> 0 < m)"])
  fix p actual :: PageState and cs :: "(PageState \<times> nat) list" and vs :: "PageState list"
  assume "actual \<noteq> p"
  then show "\<exists>m. d_visited \<lparr>d_status = Failed, d_reason = Some ''UnexpectedPageState'',
       d_counters = cs, d_visited = vs\<rparr> = vs @ take m (drop (rank p) pageSequence) \<and>
       (actual = p \<longrightarrow> 0 < m)"
    by (intro exI[of _ 0]) simp
next
  fix p :: PageState and cs :: "(PageState \<times> nat) list" and vs :: "PageState list"
  assume "nextPage p = None"
  then show "\<exists>m. d_visited \<lparr>d_status = Success, d_reason = None, d_counters = cs,
       d_visited = vs @ [p]\<rparr> = vs @ take m (drop (rank p) pageSequence) \<and> (p = p \<longrightarrow> 0 < m)"
    by (intro exI[of _ 1]) (simp add: pages_from_last)
next
  fix p q :: PageState and r n and cs :: "(PageState \<times> nat) list" and vs :: "PageState list"
  assume "nextPage p = Some q"
  then show "\<exists>m. d_visited \<lparr>d_status = Failed, d_reason = Some r, d_counters = cs @ [(p, n)],
       d_visited = vs @ [p]\<rparr> = vs @ take m (drop (rank p) pageSequence) \<and> (p = p \<longrightarrow> 0 < m)"
    by (intro exI[of _ 1]) (simp add: pages_from)
next
  fix p q l :: PageState and n and cs :: "(PageState \<times> nat) list" and vs :: "PageState list"
  assume np: "nextPage p = Some q"
    and "\<exists>m. d_visited (drive cfg portal a q l (cs @ [(p, n)]) (vs @ [p])) =
       (vs @ [p]) @ take m (drop (rank q) pageSequence) \<and> (l = q \<longrightarrow> 0 < m)"
  then obtain m where "d_visited (drive cfg portal a q l (cs @ [(p, n)]) (vs @ [p])) =
       (vs @ [p]) @ take m (drop (rank q) pageSequence)" by blast
  then show "\<exists>m. d_visited (drive cfg portal a q l (cs @ [(p, n)]) (vs @ [p])) =
       vs @ take m (drop (rank p) pageSequence) \<and> (p = p \<longrightarrow> 0 < m)"
    by (intro exI[of _ "Suc m"]) (simp add: pages_from[OF np])
qed


lemma nextPage_inj: "nextPage p' = Some q \<Longrightarrow> nextPage p = Some q \<Longrightarrow> p' = p"
  by (cases p; cases p') auto

lemma nextPage_not_first: "nextPage p \<noteq> Some LoggedOut"
  by (cases p) auto

lemma drive_reached:
  "(\<forall>q\<in>set vs. \<forall>p'. nextPage p' = Some q \<longrightarrow>
       (\<exists>k. (p', k) \<in> set cs \<and> respond portal a p' k = Acknowledged q)) \<and>
   (\<forall>p'. nextPage p' = Some p \<longrightarrow>
       (\<exists>k. (p', k) \<in> set cs \<and> respond portal a p' k = Acknowledged actual)) \<longrightarrow>
   (\<forall>q\<in>set (d_visited (drive cfg portal a p actual cs vs)). \<forall>p'. nextPage p' = Some q \<longrightarrow>
       (\<exists>k. (p', k) \<in> set (d_counters (drive cfg portal a p actual cs vs)) \<and>
            respond portal a p' k = Acknowledged q))"
proof (rule drive_cases[where P = "\<lambda>p actual cs vs d.
   (\<forall>q\<in>set vs. \<forall>p'. nextPage p' = Some q \<longrightarrow>
       (\<exists>k. (p', k) \<in> set cs \<and> respond portal a p' k = Acknowledged q)) \<and>
   (\<forall>p'. nextPage p' = Some p \<longrightarrow>
       (\<exists>k. (p', k) \<in> set cs \<and> respond portal a p' k = Acknowledged actual)) \<longrightarrow>
   (\<forall>q\<in>set (d_visited d). \<forall>p'. nextPage p' = Some q \<longrightarrow>
       (\<exists>k. (p', k) \<in> set (d_counters d) \<and> respond portal a p' k = Acknowledged q))"],
    goal_cases)
  case (1 p actual cs vs)
  then show ?case by simp
next
  case (2 p cs vs)
  then show ?case by auto
next
  case (3 p q r n cs vs)
  then show ?case by fastforce
next
  case (4 p q l n cs vs)
  have ack: "respond portal a p n = Acknowledged l" using retryLoop_advanced(1)[OF 4(2)] .
  show ?case
  proof
    assume pre: "(\<forall>q\<in>set vs. \<forall>p'. nextPage p' = Some q \<longrightarrow>
       (\<exists>k. (p', k) \<in> set cs \<and> respond portal a p' k = Acknowledged q)) \<and>
      (\<forall>p'. nextPage p' = Some p \<longrightarrow>
       (\<exists>k. (p', k) \<in> set cs \<and> respond portal a p' k = Acknowledged p))"
    have a: "\<forall>q\<in>set (vs @ [p]). \<forall>p'. nextPage p' = Some q \<longrightarrow>
       (\<exists>k. (p', k) \<in> set (cs @ [(p, n)]) \<and> respond portal a p' k = Acknowledged q)"
      using pre by fastforce
    have b: "\<forall>p'. nextPage p' = Some q \<longrightarrow>
       (\<exists>k. (p', k) \<in> set (cs @ [(p, n)]) \<and> respond portal a p' k = Acknowledged l)"
      using ack nextPage_inj[OF _ 4(1)] by auto
    show "\<forall>q'\<in>set (d_visited (drive cfg portal a q l (cs @ [(p, n)]) (vs @ [p]))).
       \<forall>p'. nextPage p' = Some q' \<longrightarrow>
       (\<exists>k. (p', k) \<in> set (d_counters (drive cfg portal a q l (cs @ [(p, n)]) (vs @ [p]))) \<and>
            respond portal a p' k = Acknowledged q')"
      using 4(3) a b by blast
  qed
qed

subsection \<open>Runs in which every failure resolves\<close>

lemma rank_next: "nextPage q = Some q' \<Longrightarrow> rank q' = Suc (rank q)"
  by (cases q) auto


lemma orchestrate_fields:
  "status (outcome (orchestrate cfg portal a t)) =
     d_status (drive cfg portal a LoggedOut LoggedOut [] [])"
  "reason (outcome (orchestrate cfg portal a t)) =
     d_reason (drive cfg portal a LoggedOut LoggedOut [] [])"
  "counters (orchestrate cfg portal a t) = d_counters (drive cfg portal a LoggedOut LoggedOut [] [])"
  "visited (orchestrate cfg portal a t) = d_visited (drive cfg portal a LoggedOut LoggedOut [] [])"
  "account (outcome (orchestrate cfg portal a t)) = a"
  "\<not> sessionOpen (orchestrate cfg portal a t)"
  by (simp_all add: orchestrate_def Let_def)


lemma in_take_pages: "q \<in> set (take m pageSequence) \<longleftrightarrow> rank q < m"
  by (cases q) (auto simp: pageSequence_def take_Cons')

lemma nth_pages: "i < 5 \<Longrightarrow> rank (pageSequence ! i) = i"
  by (auto simp: pageSequence_def less_Suc_eq numeral_eq_Suc)

lemma next_of_rank:
  "Suc (rank p) = rank q \<Longrightarrow> nextPage p = Some q"
  by (cases p; cases q) auto

lemma transition_of_next: "nextPage p = Some q \<Longrightarrow> \<exists>act. transition (At p) act (At q)"
  by (cases p) (auto intro: transition.intros)

lemma transition_into_page:
  "transition s act (At q) \<Longrightarrow> \<exists>p. s = At p \<and> nextPage p = Some q \<and> actionOf p = Some act"
  by (erule transition.cases) auto

subsection \<open>Retrying transient failures\<close>








subsection \<open>The order of the pages\<close>

text \<open>
  C5. In every orchestrator run the pages follow the fixed sequence LoggedOut,
  Dashboard, EmployeeSelected, ConfirmationPending, Confirmed with no transition
  skipped. The pages a run visits are a non-empty initial segment of that sequence;
  a page other than the first is visited only when its single predecessor was visited
  and the predecessor's action was acknowledged with that page; consecutive visited
  pages are linked by a transition of the step relation; and in the step relation a
  page state is entered only from its single predecessor by that predecessor's action.
  In particular ConfirmationPending and Confirmed are reached only after the employee
  selection has succeeded.
\<close>

theorem fixed_page_order:
  "visited (orchestrate cfg portal a t) \<noteq> [] \<and>
   visited (orchestrate cfg portal a t) =
     take (length (visited (orchestrate cfg portal a t))) pageSequence \<and>
   (\<forall>q\<in>set (visited (orchestrate cfg portal a t)). \<forall>p. nextPage p = Some q \<longrightarrow>
      p \<in> set (visited (orchestrate cfg portal a t)) \<and>
      (\<exists>k. (p, k) \<in> set (counters (orchestrate cfg portal a t)) \<and>
           respond portal a p k = Acknowledged q)) \<and>
   (\<forall>i. Suc i < length (visited (orchestrate cfg portal a t)) \<longrightarrow>
      (\<exists>act. transition (At (visited (orchestrate cfg portal a t) ! i)) act
                (At (visited (orchestrate cfg portal a t) ! Suc i)))) \<and>
   (transition s act (At q) \<longrightarrow>
      (\<exists>p. s = At p \<and> nextPage p = Some q \<and> actionOf p = Some act))"
proof -
  let ?d = "drive cfg portal a LoggedOut LoggedOut [] []"
  let ?vs = "visited (orchestrate cfg portal a t)"
  obtain m where m: "?vs = take m pageSequence" "0 < m"
    using drive_visited[of cfg portal a LoggedOut LoggedOut "[]" "[]"]
    by (auto simp: orchestrate_fields)
  have len5: "length pageSequence = 5" by (simp add: pageSequence_def)
  have ne: "?vs \<noteq> []" using m by (simp add: pageSequence_def take_Cons')
  have pre: "?vs = take (length ?vs) pageSequence"
  proof -
    have "take (length (take m pageSequence)) pageSequence = take m pageSequence"
      by (simp add: min_def len5)
    then show ?thesis using m(1) by simp
  qed
  have reach: "\<forall>q\<in>set ?vs. \<forall>p. nextPage p = Some q \<longrightarrow>
      p \<in> set ?vs \<and>
      (\<exists>k. (p, k) \<in> set (counters (orchestrate cfg portal a t)) \<and>
           respond portal a p k = Acknowledged q)"
  proof (intro ballI allI impI conjI)
    fix q p assume q: "q \<in> set ?vs" and np: "nextPage p = Some q"
    have "rank q < m" using q m(1) by (simp add: in_take_pages)
    then have "rank p < m" using rank_next[OF np] by simp
    then show "p \<in> set ?vs" using m(1) by (simp add: in_take_pages)
    have "\<forall>q\<in>set (d_visited ?d). \<forall>p'. nextPage p' = Some q \<longrightarrow>
       (\<exists>k. (p', k) \<in> set (d_counters ?d) \<and> respond portal a p' k = Acknowledged q)"
      using drive_reached[of "[]" "[]" portal a LoggedOut LoggedOut cfg]
      by (simp add: nextPage_not_first)
    then show "\<exists>k. (p, k) \<in> set (counters (orchestrate cfg portal a t)) \<and>
           respond portal a p k = Acknowledged q"
      using q np by (simp add: orchestrate_fields)
  qed
  have steps: "\<forall>i. Suc i < length ?vs \<longrightarrow>
      (\<exists>act. transition (At (?vs ! i)) act (At (?vs ! Suc i)))"
  proof (intro allI impI)
    fix i assume i: "Suc i < length ?vs"
    have lv: "length ?vs \<le> 5" using m(1) len5 by simp
    have "?vs ! i = pageSequence ! i" "?vs ! Suc i = pageSequence ! Suc i"
      using i m(1) by simp_all
    moreover have "nextPage (pageSequence ! i) = Some (pageSequence ! Suc i)"
      using i lv by (intro next_of_rank) (simp add: nth_pages)
    ultimately show "\<exists>act. transition (At (?vs ! i)) act (At (?vs ! Suc i))"
      using transition_of_next by simp
  qed
  show ?thesis
    using ne pre reach steps transition_into_page by blast
qed

theorem fixed_page_order_witness:
  "visited (orchestrate demoConfig demoPortal (acct ''C'') 0) = pageSequence \<and>
   EmployeeSelected \<in> set (visited (orchestrate demoConfig demoPortal (acct ''C'') 0)) \<and>
   (\<exists>k. (EmployeeSelected, k) \<in> set (counters (orchestrate demoConfig demoPortal (acct ''C'') 0)) \<and>
        respond demoPortal (acct ''C'') EmployeeSelected k = Acknowledged ConfirmationPending) \<and>
   (\<exists>act. transition (At (visited (orchestrate demoConfig demoPortal (acct ''C'') 0) ! 2)) act
        (At (visited (orchestrate demoConfig demoPortal (acct ''C'') 0) ! Suc 2)))"
proof -
  let ?r = "orchestrate demoConfig demoPortal (acct ''C'') 0"
  have vis: "visited ?r = pageSequence" by code_simp
  have mem: "ConfirmationPending \<in> set (visited ?r)" by code_simp
  have len: "Suc 2 < length (visited ?r)" by code_simp
  have np: "nextPage EmployeeSelected = Some ConfirmationPending" by simp
  note th = fixed_page_order[where cfg = demoConfig and portal = demoPortal and a = "acct ''C''"
      and t = 0 and s = "At EmployeeSelected" and act = requestSignOff and q = ConfirmationPending]
  have reach: "\<forall>q\<in>set (visited ?r). \<forall>p. nextPage p = Some q \<longrightarrow>
      p \<in> set (visited ?r) \<and>
      (\<exists>k. (p, k) \<in> set (counters ?r) \<and> respond demoPortal (acct ''C'') p k = Acknowledged q)"
    using th by (elim conjE)
  have steps: "\<forall>i. Suc i < length (visited ?r) \<longrightarrow>
      (\<exists>act. transition (At (visited ?r ! i)) act (At (visited ?r ! Suc i)))"
    using th by (elim conjE)
  have r1: "EmployeeSelected \<in> set (visited ?r) \<and>
      (\<exists>k. (EmployeeSelected, k) \<in> set (counters ?r) \<and>
        respond demoPortal (acct ''C'') EmployeeSelected k = Acknowledged ConfirmationPending)"
    using reach[rule_format, OF mem np] .
  have r2: "\<exists>act. transition (At (visited ?r ! 2)) act (At (visited ?r ! Suc 2))"
    using steps[rule_format, OF len] .
  show ?thesis
  proof (intro conjI)
    show "visited ?r = pageSequence" by (rule vis)
    show "EmployeeSelected \<in> set (visited ?r)" using r1 by (rule conjunct1)
    show "\<exists>k. (EmployeeSelected, k) \<in> set (counters ?r) \<and>
        respond demoPortal (acct ''C'') EmployeeSelected k = Acknowledged ConfirmationPending"
      using r1 by (rule conjunct2)
    show "\<exists>act. transition (At (visited ?r ! 2)) act (At (visited ?r ! Suc 2))" by (rule r2)
  qed
qed

section \<open>Properties of the batch runner\<close>

subsection \<open>Cancellation at the run-level timeout\<close>










lemma earliest_less: "ws \<noteq> [] \<Longrightarrow> earliest ws < length ws"
  by (induction ws rule: earliest.induct) (auto simp: Let_def)



end
